theory Spec2Isabelle
  imports Main
begin

section \<open>SimpleSetup: the engine assembly facade of OpenEngine (Utils/SimpleSetup.cpp)\<close>

text \<open>
  The facade creates one Engine, one SDLFrame, one Viewport, one Renderer, one SDLInput,
  one TextureLoader and one HUD, and never replaces them. The state of each of these
  collaborators is a group of fields of the record \<open>world\<close> below. Scene nodes,
  cameras, frustums and other viewing volumes are created and replaced while the facade
  lives, so they are named by pointers. A pointer is the identity of an object: a number
  chosen by the caller for an object the caller owns, and the allocation number of its
  class for an object the facade creates with \<open>new\<close>.
\<close>

subsection \<open>Pointers and objects\<close>

type_synonym texture = nat

datatype node_ptr =
    CallerNode nat       \<comment> \<open>a scene node owned by the caller\<close>
  | DefaultScene         \<comment> \<open>\<open>new SceneNode()\<close> of the constructor\<close>
  | DefaultLight         \<comment> \<open>\<open>new DirectionalLightNode()\<close> of the constructor\<close>
  | FrustumNode nat      \<comment> \<open>the debug visualization node of the k-th Frustum\<close>

datatype camera_ptr =
    CallerCamera nat     \<comment> \<open>a Camera owned by the caller\<close>
  | OwnCamera nat        \<comment> \<open>the k-th Camera created by the facade\<close>

datatype volume_ptr =
    CallerVolume nat              \<comment> \<open>a viewing volume owned by the caller\<close>
  | DefaultVolume                 \<comment> \<open>\<open>new InterpolatedViewingVolume(*(new ViewingVolume()))\<close>\<close>
  | CameraVolume camera_ptr       \<comment> \<open>a Camera, seen as IViewingVolume\<close>
  | FrustumVolume nat             \<comment> \<open>the k-th Frustum, seen as IViewingVolume\<close>

datatype object = Volume volume_ptr | Node node_ptr

text \<open>
  A scene node with the texture resources it uses and the subtrees it owns. The first
  argument is the identity of the node.
\<close>

datatype scene_node = SceneNode node_ptr "texture list" "scene_node list"

fun subNodes :: "scene_node \<Rightarrow> scene_node list" where
  "subNodes (SceneNode p ts ns) = ns"

record Frustum =
  wrapped :: camera_ptr      \<comment> \<open>the argument of \<open>new Frustum(*camera)\<close>\<close>
  clipping :: bool           \<comment> \<open>set by \<open>VisualizeClipping\<close>\<close>

text \<open>Listeners of the engine phases (the modules), of the renderer phases and of key events.\<close>

datatype module = Frame | Renderer | Input | ShaderLoader nat

datatype rendering_listener = TextureLoadOnInit | ExtRenderingView | HUD

datatype key_listener = QuitHandler

text \<open>
  Modelled from the spec: the key symbols (Devices/Symbols.h) are not under src/. The
  source compares the symbol of the event with \<open>KEY_ESCAPE\<close>; every other symbol is
  \<open>KEY_OTHER\<close> with its code.
\<close>

datatype key = KEY_ESCAPE | KEY_OTHER nat

datatype level = Error | Info

datatype logger = StreamLogger

datatype plugin = OBJPlugin | TGAPlugin | GLSLPlugin

subsection \<open>The state\<close>

record world =
  title :: string
  scene :: node_ptr                                \<comment> \<open>\<open>ISceneNode* scene\<close>\<close>
  camera :: camera_ptr                             \<comment> \<open>\<open>Camera* camera\<close>\<close>
  frustum :: nat                                   \<comment> \<open>\<open>Frustum* frustum\<close>\<close>
  engine_initialize :: "module list"               \<comment> \<open>\<open>engine->InitializeEvent()\<close>\<close>
  engine_process :: "module list"                  \<comment> \<open>\<open>engine->ProcessEvent()\<close>\<close>
  engine_deinitialize :: "module list"             \<comment> \<open>\<open>engine->DeinitializeEvent()\<close>\<close>
  engine_stops :: nat                              \<comment> \<open>calls of \<open>engine.Stop()\<close>\<close>
  renderer_root :: "node_ptr option"               \<comment> \<open>\<open>renderer->GetSceneRoot()\<close>, None is NULL\<close>
  renderer_initialize :: "rendering_listener list" \<comment> \<open>\<open>renderer->InitializeEvent()\<close>\<close>
  renderer_process :: "rendering_listener list"    \<comment> \<open>\<open>renderer->ProcessEvent()\<close>\<close>
  renderer_postprocess :: "rendering_listener list"\<comment> \<open>\<open>renderer->PostProcessEvent()\<close>\<close>
  viewport_volume :: "volume_ptr option"           \<comment> \<open>the viewing volume of the Viewport\<close>
  key_listeners :: "key_listener list"             \<comment> \<open>\<open>input->KeyEvent()\<close>\<close>
  loaded :: "texture set"                          \<comment> \<open>textures the TextureLoader has loaded\<close>
  cameras :: "volume_ptr list"                     \<comment> \<open>k-th entry: the volume \<open>OwnCamera k\<close> wraps\<close>
  frustums :: "Frustum list"                       \<comment> \<open>k-th entry: the k-th Frustum\<close>
  shader_loaders :: "node_ptr list"                \<comment> \<open>k-th entry: the scene of \<open>ShaderLoader k\<close>\<close>
  destroyed :: "object list"                       \<comment> \<open>objects destroyed with \<open>delete\<close>\<close>
  nodes :: "node_ptr \<Rightarrow> scene_node"                \<comment> \<open>the tree below each scene node\<close>
  loggers :: "logger list"                         \<comment> \<open>\<open>Logger::AddLogger\<close>\<close>
  log_lines :: "(level \<times> string) list"            \<comment> \<open>what was written to \<open>logger\<close>\<close>
  model_plugins :: "plugin list"                   \<comment> \<open>\<open>ResourceManager<IModelResource>\<close>\<close>
  texture_plugins :: "plugin list"                 \<comment> \<open>\<open>ResourceManager<ITextureResource>\<close>\<close>
  shader_plugins :: "plugin list"                  \<comment> \<open>\<open>ResourceManager<IShaderResource>\<close>\<close>
  search_path :: "string list"                     \<comment> \<open>\<open>DirectoryManager\<close>\<close>
  scene_dot :: "scene_node option"                 \<comment> \<open>the graph written to the file scene.dot\<close>

subsection \<open>Collaborators\<close>

text \<open>
  Modelled from the spec: the event lists (Core/Event.h) are not under src/.
  \<open>Attach\<close> registers a listener at the end of the list of its phase, without
  de-duplication; firing a phase invokes every attached listener in attachment order.
\<close>

definition Attach :: "'a \<Rightarrow> 'a list \<Rightarrow> 'a list" where
  "Attach l ls = ls @ [l]"

text \<open>Modelled from the spec: the setters of Renderer and Viewport, which are not under src/.\<close>

definition SetSceneRoot :: "node_ptr option \<Rightarrow> world \<Rightarrow> world" where
  "SetSceneRoot r w = w\<lparr>renderer_root := r\<rparr>"

definition SetViewingVolume :: "volume_ptr option \<Rightarrow> world \<Rightarrow> world" where
  "SetViewingVolume v w = w\<lparr>viewport_volume := v\<rparr>"

text \<open>
  Modelled from the spec: \<open>ISceneNode::AddNode\<close> is not under src/. The parent takes
  the subtree of the child as its last sub node.
\<close>

fun add_sub :: "scene_node \<Rightarrow> scene_node \<Rightarrow> scene_node" where
  "add_sub (SceneNode p ts ns) n = SceneNode p ts (ns @ [n])"

definition AddNode :: "node_ptr \<Rightarrow> node_ptr \<Rightarrow> world \<Rightarrow> world" where
  "AddNode parent child w =
     w\<lparr>nodes := (nodes w)(parent := add_sub (nodes w parent) (nodes w child))\<rparr>"

text \<open>
  Modelled from the spec: \<open>TextureLoader::Load\<close> is not under src/. It is the resource
  loader that loads all texture resources reachable from the root it is given; the call
  is synchronous.
\<close>

fun reachable_textures :: "scene_node \<Rightarrow> texture list" where
  "reachable_textures (SceneNode p ts ns) = ts @ concat (map reachable_textures ns)"

definition Load :: "node_ptr \<Rightarrow> world \<Rightarrow> world" where
  "Load root w = w\<lparr>loaded := loaded w \<union> set (reachable_textures (nodes w root))\<rparr>"

text \<open>Modelled from the spec: \<open>IEngine::Stop\<close> is not under src/; the requests are counted.\<close>

definition Stop :: "world \<Rightarrow> world" where
  "Stop w = w\<lparr>engine_stops := Suc (engine_stops w)\<rparr>"

text \<open>
  Modelled from the spec: Frustum (Display/Frustum.h) is not under src/. A Frustum
  decorates the camera it is given, with clip plane visualization switched off, and has
  a debug visualization node of its own.
\<close>

definition new_Frustum :: "camera_ptr \<Rightarrow> world \<Rightarrow> nat \<times> world" where
  "new_Frustum c w =
     (length (frustums w), w\<lparr>frustums := frustums w @ [\<lparr>wrapped = c, clipping = False\<rparr>]\<rparr>)"

definition delete_Frustum :: "nat \<Rightarrow> world \<Rightarrow> world" where
  "delete_Frustum f w = w\<lparr>destroyed := destroyed w @ [Volume (FrustumVolume f)]\<rparr>"

definition VisualizeClipping :: "nat \<Rightarrow> bool \<Rightarrow> world \<Rightarrow> world" where
  "VisualizeClipping f b w =
     (if f < length (frustums w)
      then w\<lparr>frustums := (frustums w)[f := (frustums w ! f)\<lparr>clipping := b\<rparr>]\<rparr>
      else w)"

definition GetFrustumNode :: "nat \<Rightarrow> node_ptr" where
  "GetFrustumNode f = FrustumNode f"

text \<open>\<open>new Camera(volume)\<close> and \<open>new OpenGL::ShaderLoader(*textureloader, scene)\<close>.\<close>

definition new_Camera :: "volume_ptr \<Rightarrow> world \<Rightarrow> camera_ptr \<times> world" where
  "new_Camera v w = (OwnCamera (length (cameras w)), w\<lparr>cameras := cameras w @ [v]\<rparr>)"

definition new_ShaderLoader :: "node_ptr \<Rightarrow> world \<Rightarrow> module \<times> world" where
  "new_ShaderLoader s w =
     (ShaderLoader (length (shader_loaders w)), w\<lparr>shader_loaders := shader_loaders w @ [s]\<rparr>)"

text \<open>One line written to a stream of the logger, up to \<open>logger.end\<close>.\<close>

definition write_log :: "level \<Rightarrow> string \<Rightarrow> world \<Rightarrow> world" where
  "write_log l s w = w\<lparr>log_lines := log_lines w @ [(l, s)]\<rparr>"

text \<open>
  Modelled from the spec: \<open>ASDotVisitor::Write\<close> is not under src/; the format of the
  file is its own. The file then holds the graph of the scene.
\<close>

definition Write_dot :: "node_ptr \<Rightarrow> world \<Rightarrow> world" where
  "Write_dot s w = w\<lparr>scene_dot := Some (nodes w s)\<rparr>"

subsection \<open>The listeners of SimpleSetup.cpp\<close>

text \<open>\<open>TextureLoadOnInit::Handle\<close>; the renderer of the argument is the renderer of the facade.\<close>

definition TextureLoadOnInit_Handle :: "world \<Rightarrow> world" where
  "TextureLoadOnInit_Handle w =
     (if renderer_root w \<noteq> None then Load (the (renderer_root w)) w else w)"

text \<open>\<open>QuitHandler::Handle\<close>.\<close>

definition QuitHandler_Handle :: "key \<Rightarrow> world \<Rightarrow> world" where
  "QuitHandler_Handle arg_sym w = (if arg_sym = KEY_ESCAPE then Stop w else w)"

text \<open>
  Firing the rendering-initialize phase of the renderer and the key event of the input
  device. The facade attaches the other two rendering listeners to other phases only;
  what they would do on this one is outside the repository and left out.
\<close>

fun Handle_rendering :: "rendering_listener \<Rightarrow> world \<Rightarrow> world" where
  "Handle_rendering TextureLoadOnInit w = TextureLoadOnInit_Handle w"
| "Handle_rendering ExtRenderingView w = w"
| "Handle_rendering HUD w = w"

definition fire_renderer_initialize :: "world \<Rightarrow> world" where
  "fire_renderer_initialize w = fold Handle_rendering (renderer_initialize w) w"

fun Handle_key :: "key \<Rightarrow> key_listener \<Rightarrow> world \<Rightarrow> world" where
  "Handle_key arg_sym QuitHandler w = QuitHandler_Handle arg_sym w"

definition fire_key_event :: "key \<Rightarrow> world \<Rightarrow> world" where
  "fire_key_event arg_sym w = fold (Handle_key arg_sym) (key_listeners w) w"

subsection \<open>The facade\<close>

text \<open>
  The constructor. \<open>host\<close> gives the scene graphs the caller holds: the tree below
  each node of the caller. The member initializers come first, then the body, line by
  line. The frame (800 by 600 at depth 32), the rendering view and the HUD have no state
  of their own here: they appear as the listeners \<open>Frame\<close>, \<open>ExtRenderingView\<close>
  and \<open>HUD\<close>. The registries of the process (loggers, plugins, search path) start
  empty.
\<close>

definition members :: "string \<Rightarrow> (nat \<Rightarrow> scene_node) \<Rightarrow> world" where
  "members t host =
     \<lparr>title = t,
      scene = DefaultScene,
      camera = OwnCamera 0,
      frustum = 0,
      engine_initialize = [],
      engine_process = [],
      engine_deinitialize = [],
      engine_stops = 0,
      renderer_root = None,
      renderer_initialize = [],
      renderer_process = [],
      renderer_postprocess = [],
      viewport_volume = None,
      key_listeners = [],
      loaded = {},
      cameras = [DefaultVolume],
      frustums = [\<lparr>wrapped = OwnCamera 0, clipping = False\<rparr>],
      shader_loaders = [],
      destroyed = [],
      nodes = (\<lambda>p. case p of CallerNode n \<Rightarrow> host n | _ \<Rightarrow> SceneNode p [] []),
      loggers = [],
      log_lines = [],
      model_plugins = [],
      texture_plugins = [],
      shader_plugins = [],
      search_path = [],
      scene_dot = None\<rparr>"

definition SimpleSetup :: "string \<Rightarrow> (nat \<Rightarrow> scene_node) \<Rightarrow> world" where
  "SimpleSetup t host =
     (let w = members t host;
          w = w\<lparr>loggers := loggers w @ [StreamLogger]\<rparr>;
          w = w\<lparr>engine_initialize := Attach Frame (engine_initialize w)\<rparr>;
          w = w\<lparr>engine_initialize := Attach Renderer (engine_initialize w)\<rparr>;
          w = w\<lparr>engine_initialize := Attach Input (engine_initialize w)\<rparr>;
          w = w\<lparr>engine_process := Attach Frame (engine_process w)\<rparr>;
          w = w\<lparr>engine_process := Attach Renderer (engine_process w)\<rparr>;
          w = w\<lparr>engine_process := Attach Input (engine_process w)\<rparr>;
          w = w\<lparr>engine_deinitialize := Attach Frame (engine_deinitialize w)\<rparr>;
          w = w\<lparr>engine_deinitialize := Attach Renderer (engine_deinitialize w)\<rparr>;
          w = w\<lparr>engine_deinitialize := Attach Input (engine_deinitialize w)\<rparr>;
          w = w\<lparr>model_plugins := model_plugins w @ [OBJPlugin]\<rparr>;
          w = w\<lparr>texture_plugins := texture_plugins w @ [TGAPlugin]\<rparr>;
          w = w\<lparr>shader_plugins := shader_plugins w @ [GLSLPlugin]\<rparr>;
          w = AddNode (scene w) DefaultLight w;
          w = w\<lparr>renderer_process := Attach ExtRenderingView (renderer_process w)\<rparr>;
          w = SetSceneRoot (Some (scene w)) w;
          w = SetViewingVolume (Some (FrustumVolume (frustum w))) w;
          w = w\<lparr>renderer_initialize := Attach TextureLoadOnInit (renderer_initialize w)\<rparr>;
          w = w\<lparr>key_listeners := Attach QuitHandler (key_listeners w)\<rparr>;
          w = w\<lparr>renderer_postprocess := Attach HUD (renderer_postprocess w)\<rparr>
      in w)"

definition GetScene :: "world \<Rightarrow> node_ptr" where
  "GetScene w = scene w"

definition SetScene :: "node_ptr \<Rightarrow> world \<Rightarrow> world" where
  "SetScene s w =
     (let w = w\<lparr>scene := s\<rparr>;
          w = SetSceneRoot (Some (scene w)) w;
          w = Load s w;
          (shaderLoader, w) = new_ShaderLoader s w;
          w = w\<lparr>engine_initialize := Attach shaderLoader (engine_initialize w)\<rparr>
      in w)"

definition GetCamera :: "world \<Rightarrow> camera_ptr" where
  "GetCamera w = camera w"

text \<open>\<open>SetCamera(Camera&)\<close>.\<close>

definition SetCamera_Camera :: "camera_ptr \<Rightarrow> world \<Rightarrow> world" where
  "SetCamera_Camera c w =
     (let w = w\<lparr>camera := c\<rparr>;
          w = delete_Frustum (frustum w) w;
          (f, w) = new_Frustum (camera w) w;
          w = w\<lparr>frustum := f\<rparr>;
          w = SetViewingVolume (Some (FrustumVolume (frustum w))) w
      in w)"

text \<open>\<open>SetCamera(IViewingVolume&)\<close>.\<close>

definition SetCamera_IViewingVolume :: "volume_ptr \<Rightarrow> world \<Rightarrow> world" where
  "SetCamera_IViewingVolume v w =
     (let (c, w) = new_Camera v w;
          w = w\<lparr>camera := c\<rparr>;
          w = SetViewingVolume (Some (CameraVolume (camera w))) w
      in w)"

definition AddDataDirectory :: "string \<Rightarrow> world \<Rightarrow> world" where
  "AddDataDirectory dir w = w\<lparr>search_path := search_path w @ [dir]\<rparr>"

text \<open>
  \<open>EnableDebugging\<close>. Whether the stream on scene.dot could be opened
  (\<open>dotfile.good()\<close>) is decided by the file system: it is the argument \<open>good\<close>.
\<close>

definition EnableDebugging :: "bool \<Rightarrow> world \<Rightarrow> world" where
  "EnableDebugging good w =
     (let w = VisualizeClipping (frustum w) True w;
          w = AddNode (scene w) (GetFrustumNode (frustum w)) w
      in if \<not> good
         then write_log Error ''Can not open 'scene.dot' for output'' w
         else
           (let w = Write_dot (scene w) w;
                w = write_log Info (''Saved physics graph to 'scene.dot'' @ [CHR 0x27]) w;
                w = write_log Info
                      (''To create a SVG image run: '' @ ''dot -Tsvg scene.dot > scene.svg'') w
            in w))"

subsection \<open>Sequences of calls\<close>

text \<open>The two camera replacements, as one call each.\<close>

datatype replacement = ByCamera camera_ptr | ByViewingVolume volume_ptr

fun replace :: "replacement \<Rightarrow> world \<Rightarrow> world" where
  "replace (ByCamera c) w = SetCamera_Camera c w"
| "replace (ByViewingVolume v) w = SetCamera_IViewingVolume v w"

text \<open>
  Everything a caller can do to the facade and, through its accessors, to the phases
  this file attaches listeners to: the mutators of the facade, a new scene root given to
  the renderer directly (NULL included), and the firing of the two phases.
\<close>

datatype call =
    CallSetScene node_ptr
  | CallSetCamera replacement
  | CallAddDataDirectory string
  | CallEnableDebugging bool
  | CallSetSceneRoot "node_ptr option"
  | FireRendererInitialize
  | FireKeyEvent key

fun perform :: "call \<Rightarrow> world \<Rightarrow> world" where
  "perform (CallSetScene s) w = SetScene s w"
| "perform (CallSetCamera r) w = replace r w"
| "perform (CallAddDataDirectory dir) w = AddDataDirectory dir w"
| "perform (CallEnableDebugging good) w = EnableDebugging good w"
| "perform (CallSetSceneRoot r) w = SetSceneRoot r w"
| "perform FireRendererInitialize w = fire_renderer_initialize w"
| "perform (FireKeyEvent k) w = fire_key_event k w"

definition run :: "call list \<Rightarrow> world \<Rightarrow> world" where
  "run cs w = fold perform cs w"

subsection \<open>Notions the properties are stated with\<close>

text \<open>A camera pointer names a camera that exists: any camera of the caller, or one of
  the cameras the facade has created so far.\<close>

fun camera_exists :: "world \<Rightarrow> camera_ptr \<Rightarrow> bool" where
  "camera_exists w (CallerCamera n) = True"
| "camera_exists w (OwnCamera k) = (k < length (cameras w))"

text \<open>A viewing volume is, or decorates, the camera \<open>c\<close>.\<close>

fun shows_camera :: "world \<Rightarrow> camera_ptr \<Rightarrow> volume_ptr \<Rightarrow> bool" where
  "shows_camera w c (CameraVolume c') = (c' = c)"
| "shows_camera w c (FrustumVolume f) = (f < length (frustums w) \<and> wrapped (frustums w ! f) = c)"
| "shows_camera w c (CallerVolume n) = False"
| "shows_camera w c DefaultVolume = False"

text \<open>The facade refers to the camera \<open>c\<close>: through its camera pointer, through the
  Frustum it holds, or through the viewing volume its Viewport is bound to.\<close>

definition facade_refers :: "world \<Rightarrow> camera_ptr \<Rightarrow> bool" where
  "facade_refers w c =
     (camera w = c \<or> shows_camera w c (FrustumVolume (frustum w)) \<or>
      (case viewport_volume w of None \<Rightarrow> False | Some v \<Rightarrow> shows_camera w c v))"

text \<open>An object is one of the first \<open>n\<close> Frustums.\<close>

fun frustum_below :: "nat \<Rightarrow> object \<Rightarrow> bool" where
  "frustum_below n (Volume (FrustumVolume f)) = (f < n)"
| "frustum_below n x = False"

text \<open>The pointers of the facade are sound: the Frustum it holds exists and has not been
  destroyed, only Frustums that exist have been destroyed, and the current camera and
  the cameras the Frustums decorate exist.\<close>

definition facade_ok :: "world \<Rightarrow> bool" where
  "facade_ok w =
     (frustum w < length (frustums w) \<and>
      Volume (FrustumVolume (frustum w)) \<notin> set (destroyed w) \<and>
      list_all (frustum_below (length (frustums w))) (destroyed w) \<and>
      camera_exists w (camera w) \<and>
      list_all (\<lambda>f. camera_exists w (wrapped f)) (frustums w))"

fun is_ShaderLoader :: "module \<Rightarrow> bool" where
  "is_ShaderLoader (ShaderLoader k) = True"
| "is_ShaderLoader Frame = False"
| "is_ShaderLoader Renderer = False"
| "is_ShaderLoader Input = False"

text \<open>A caller with two scene nodes of its own: node 0 uses texture 1 and owns node 1,
  which uses textures 2 and 3. Every other node of the caller is bare.\<close>

definition example_host :: "nat \<Rightarrow> scene_node" where
  "example_host n =
     (if n = 0 then SceneNode (CallerNode 0) [1] [SceneNode (CallerNode 1) [2, 3] []]
      else if n = 1 then SceneNode (CallerNode 1) [2, 3] []
      else SceneNode (CallerNode n) [] [])"

definition example_world :: world where
  "example_world = SimpleSetup ''demo'' example_host"

text \<open>What the soundness of the pointers depends on.\<close>

definition pointers :: "world \<Rightarrow> nat \<times> Frustum list \<times> object list \<times> camera_ptr \<times> volume_ptr list" where
  "pointers w = (frustum w, frustums w, destroyed w, camera w, cameras w)"

text \<open>A call passes a camera that exists, and so does every call of a sequence, each in
  the state the calls before it lead to. A camera is the only argument the facade keeps
  a pointer to in another object of its own.\<close>

fun call_ok :: "world \<Rightarrow> call \<Rightarrow> bool" where
  "call_ok w (CallSetCamera (ByCamera c)) = camera_exists w c"
| "call_ok w c = True"

fun calls_ok :: "world \<Rightarrow> call list \<Rightarrow> bool" where
  "calls_ok w [] = True"
| "calls_ok w (c # cs) = (call_ok w c \<and> calls_ok (perform c w) cs)"

section \<open>What each operation does to the state\<close>

lemma SimpleSetup_eq:
  "SimpleSetup t host =
     (members t host)
      \<lparr>loggers := [StreamLogger],
       engine_initialize := [Frame, Renderer, Input],
       engine_process := [Frame, Renderer, Input],
       engine_deinitialize := [Frame, Renderer, Input],
       model_plugins := [OBJPlugin],
       texture_plugins := [TGAPlugin],
       shader_plugins := [GLSLPlugin],
       nodes := (nodes (members t host))
                  (DefaultScene := SceneNode DefaultScene [] [SceneNode DefaultLight [] []]),
       renderer_process := [ExtRenderingView],
       renderer_root := Some DefaultScene,
       viewport_volume := Some (FrustumVolume 0),
       renderer_initialize := [TextureLoadOnInit],
       key_listeners := [QuitHandler],
       renderer_postprocess := [HUD]\<rparr>"
  by (simp add: SimpleSetup_def members_def Attach_def AddNode_def SetSceneRoot_def
      SetViewingVolume_def Let_def)

lemma SetScene_eq:
  "SetScene s w =
     w\<lparr>scene := s, renderer_root := Some s,
       loaded := loaded w \<union> set (reachable_textures (nodes w s)),
       shader_loaders := shader_loaders w @ [s],
       engine_initialize := engine_initialize w @ [ShaderLoader (length (shader_loaders w))]\<rparr>"
  by (simp add: SetScene_def SetSceneRoot_def Load_def new_ShaderLoader_def Attach_def Let_def)

lemma SetCamera_Camera_eq:
  "SetCamera_Camera c w =
     w\<lparr>camera := c,
       destroyed := destroyed w @ [Volume (FrustumVolume (frustum w))],
       frustums := frustums w @ [\<lparr>wrapped = c, clipping = False\<rparr>],
       frustum := length (frustums w),
       viewport_volume := Some (FrustumVolume (length (frustums w)))\<rparr>"
  by (simp add: SetCamera_Camera_def delete_Frustum_def new_Frustum_def SetViewingVolume_def
      Let_def)

lemma SetCamera_IViewingVolume_eq:
  "SetCamera_IViewingVolume v w =
     w\<lparr>cameras := cameras w @ [v],
       camera := OwnCamera (length (cameras w)),
       viewport_volume := Some (CameraVolume (OwnCamera (length (cameras w))))\<rparr>"
  by (simp add: SetCamera_IViewingVolume_def new_Camera_def SetViewingVolume_def Let_def)

lemma EnableDebugging_failure_eq:
  "frustum w < length (frustums w) \<Longrightarrow>
   EnableDebugging False w =
     w\<lparr>frustums := (frustums w)[frustum w := (frustums w ! frustum w)\<lparr>clipping := True\<rparr>],
       nodes := (nodes w)
         (scene w := add_sub (nodes w (scene w)) (nodes w (FrustumNode (frustum w)))),
       log_lines := log_lines w @ [(Error, ''Can not open 'scene.dot' for output'')]\<rparr>"
  by (simp add: EnableDebugging_def VisualizeClipping_def AddNode_def GetFrustumNode_def
      write_log_def Let_def)

lemma EnableDebugging_success_eq:
  "frustum w < length (frustums w) \<Longrightarrow>
   EnableDebugging True w =
     w\<lparr>frustums := (frustums w)[frustum w := (frustums w ! frustum w)\<lparr>clipping := True\<rparr>],
       nodes := (nodes w)
         (scene w := add_sub (nodes w (scene w)) (nodes w (FrustumNode (frustum w)))),
       scene_dot := Some (add_sub (nodes w (scene w)) (nodes w (FrustumNode (frustum w)))),
       log_lines := log_lines w @
         [(Info, ''Saved physics graph to 'scene.dot'' @ [CHR 0x27]),
          (Info, ''To create a SVG image run: dot -Tsvg scene.dot > scene.svg'')]\<rparr>"
  by (simp add: EnableDebugging_def VisualizeClipping_def AddNode_def GetFrustumNode_def
      write_log_def Write_dot_def Let_def)

text \<open>The example world, field by field.\<close>

lemma example_world_fields:
  "scene example_world = DefaultScene"
  "camera example_world = OwnCamera 0"
  "frustum example_world = 0"
  "frustums example_world = [\<lparr>wrapped = OwnCamera 0, clipping = False\<rparr>]"
  "cameras example_world = [DefaultVolume]"
  "destroyed example_world = []"
  "loaded example_world = {}"
  "shader_loaders example_world = []"
  "log_lines example_world = []"
  "scene_dot example_world = None"
  "engine_stops example_world = 0"
  "renderer_root example_world = Some DefaultScene"
  "viewport_volume example_world = Some (FrustumVolume 0)"
  "engine_initialize example_world = [Frame, Renderer, Input]"
  "nodes example_world (CallerNode n) = example_host n"
  "nodes example_world DefaultScene = SceneNode DefaultScene [] [SceneNode DefaultLight [] []]"
  "nodes example_world (FrustumNode k) = SceneNode (FrustumNode k) [] []"
  by (simp_all add: example_world_def SimpleSetup_eq members_def)

section \<open>The listeners attached to the renderer and to the input device stay as constructed\<close>

lemma fold_Handle_rendering_listeners:
  "renderer_initialize (fold Handle_rendering ls w) = renderer_initialize w \<and>
   key_listeners (fold Handle_rendering ls w) = key_listeners w"
proof (induction ls arbitrary: w)
  case Nil
  show ?case by simp
next
  case (Cons l ls)
  have "renderer_initialize (Handle_rendering l w) = renderer_initialize w \<and>
        key_listeners (Handle_rendering l w) = key_listeners w"
    by (cases l) (simp_all add: TextureLoadOnInit_Handle_def Load_def)
  with Cons.IH [of "Handle_rendering l w"] show ?case by simp
qed

lemma fold_Handle_key_listeners:
  "renderer_initialize (fold (Handle_key k) ls w) = renderer_initialize w \<and>
   key_listeners (fold (Handle_key k) ls w) = key_listeners w"
proof (induction ls arbitrary: w)
  case Nil
  show ?case by simp
next
  case (Cons l ls)
  have "renderer_initialize (Handle_key k l w) = renderer_initialize w \<and>
        key_listeners (Handle_key k l w) = key_listeners w"
    by (cases l) (simp add: QuitHandler_Handle_def Stop_def)
  with Cons.IH [of "Handle_key k l w"] show ?case by simp
qed

lemma EnableDebugging_listeners:
  "renderer_initialize (EnableDebugging good w) = renderer_initialize w \<and>
   key_listeners (EnableDebugging good w) = key_listeners w"
  by (simp add: EnableDebugging_def VisualizeClipping_def AddNode_def GetFrustumNode_def
      write_log_def Write_dot_def Let_def)

lemma perform_listeners:
  "renderer_initialize (perform c w) = renderer_initialize w \<and>
   key_listeners (perform c w) = key_listeners w"
proof (cases c)
  case (CallSetCamera r)
  then show ?thesis
    by (cases r) (simp_all add: SetCamera_Camera_eq SetCamera_IViewingVolume_eq)
next
  case (CallEnableDebugging good)
  then show ?thesis by (simp add: EnableDebugging_listeners)
next
  case FireRendererInitialize
  then show ?thesis by (simp add: fire_renderer_initialize_def fold_Handle_rendering_listeners)
next
  case (FireKeyEvent k)
  then show ?thesis by (simp add: fire_key_event_def fold_Handle_key_listeners)
qed (simp_all add: SetScene_eq AddDataDirectory_def SetSceneRoot_def)

lemma run_listeners:
  "renderer_initialize (run cs w) = renderer_initialize w \<and>
   key_listeners (run cs w) = key_listeners w"
  unfolding run_def
proof (induction cs arbitrary: w)
  case Nil
  show ?case by simp
next
  case (Cons c cs)
  from Cons.IH [of "perform c w"] perform_listeners [of c w] show ?case by simp
qed

lemma run_SimpleSetup_listeners:
  "renderer_initialize (run cs (SimpleSetup t host)) = [TextureLoadOnInit]"
  "key_listeners (run cs (SimpleSetup t host)) = [QuitHandler]"
  by (simp_all add: run_listeners SimpleSetup_eq)

section \<open>Repeated scene replacement\<close>

lemma fold_SetScene_shader_loaders:
  "shader_loaders (fold SetScene ss w) = shader_loaders w @ ss"
  by (induction ss arbitrary: w) (simp_all add: SetScene_eq)

lemma fold_SetScene_engine_initialize:
  "engine_initialize (fold SetScene ss w) =
     engine_initialize w @
     map ShaderLoader [length (shader_loaders w) ..< length (shader_loaders w) + length ss]"
proof (induction ss arbitrary: w)
  case Nil
  show ?case by simp
next
  case (Cons s ss)
  have "[length (shader_loaders w) ..< length (shader_loaders w) + length (s # ss)] =
        length (shader_loaders w) #
        [Suc (length (shader_loaders w)) ..< Suc (length (shader_loaders w)) + length ss]"
    using upt_rec [of "length (shader_loaders w)" "length (shader_loaders w) + length (s # ss)"]
    by simp
  with Cons.IH [of "SetScene s w"] show ?case by (simp add: SetScene_eq)
qed

lemma filter_is_ShaderLoader_map: "filter is_ShaderLoader (map ShaderLoader ks) = map ShaderLoader ks"
  by (induction ks) simp_all

section \<open>The pointers of the facade stay sound\<close>

lemma facade_ok_SimpleSetup: "facade_ok (SimpleSetup t host)"
  by (simp add: facade_ok_def SimpleSetup_eq members_def)

lemma frustum_below_Suc: "frustum_below n x \<Longrightarrow> frustum_below (Suc n) x"
  by (induction n x rule: frustum_below.induct) simp_all

lemma frustum_below_fresh:
  "list_all (frustum_below n) xs \<Longrightarrow> Volume (FrustumVolume n) \<notin> set xs"
  by (auto simp: list_all_iff)

lemma facade_ok_SetCamera_Camera:
  assumes "facade_ok w" and "camera_exists w c"
  shows "facade_ok (SetCamera_Camera c w)"
proof -
  let ?w = "SetCamera_Camera c w"
  have same: "camera_exists ?w x = camera_exists w x" for x
    by (cases x) (simp_all add: SetCamera_Camera_eq)
  from assms have below: "list_all (frustum_below (length (frustums w))) (destroyed w)"
    by (simp add: facade_ok_def)
  then have d: "list_all (frustum_below (Suc (length (frustums w)))) (destroyed w)"
    using frustum_below_Suc by (auto simp: list_all_iff)
  from below have fresh: "Volume (FrustumVolume (length (frustums w))) \<notin> set (destroyed w)"
    by (rule frustum_below_fresh)
  from assms d fresh show ?thesis
    unfolding facade_ok_def same
    by (simp add: SetCamera_Camera_eq)
qed

lemma facade_ok_SetCamera_IViewingVolume:
  assumes "facade_ok w"
  shows "facade_ok (SetCamera_IViewingVolume v w)"
proof -
  let ?w = "SetCamera_IViewingVolume v w"
  have grow: "camera_exists ?w x" if "camera_exists w x" for x
    using that by (cases x) (simp_all add: SetCamera_IViewingVolume_eq)
  from assms have "list_all (\<lambda>f. camera_exists w (wrapped f)) (frustums w)"
    by (simp add: facade_ok_def)
  then have "list_all (\<lambda>f. camera_exists ?w (wrapped f)) (frustums w)"
    using grow by (simp add: list_all_iff)
  with assms show ?thesis
    by (simp add: facade_ok_def SetCamera_IViewingVolume_eq)
qed

lemma facade_ok_wrapped_exists:
  "facade_ok w \<Longrightarrow> camera_exists w (wrapped (frustums w ! frustum w))"
  by (simp add: facade_ok_def list_all_length)


text \<open>Every other call leaves these pointers alone, or only switches the clip plane
  visualization of the Frustum on.\<close>

lemma camera_exists_cameras: "cameras w' = cameras w \<Longrightarrow> camera_exists w' c = camera_exists w c"
  by (cases c) simp_all

lemma facade_ok_pointers: "pointers w' = pointers w \<Longrightarrow> facade_ok w' = facade_ok w"
  by (simp add: facade_ok_def pointers_def camera_exists_cameras [of w' w])

lemma fold_Handle_rendering_pointers: "pointers (fold Handle_rendering ls w) = pointers w"
proof (induction ls arbitrary: w)
  case Nil
  show ?case by simp
next
  case (Cons l ls)
  have "pointers (Handle_rendering l w) = pointers w"
    by (cases l) (simp_all add: TextureLoadOnInit_Handle_def Load_def pointers_def)
  with Cons.IH [of "Handle_rendering l w"] show ?case by simp
qed

lemma fold_Handle_key_pointers: "pointers (fold (Handle_key k) ls w) = pointers w"
proof (induction ls arbitrary: w)
  case Nil
  show ?case by simp
next
  case (Cons l ls)
  have "pointers (Handle_key k l w) = pointers w"
    by (cases l) (simp add: QuitHandler_Handle_def Stop_def pointers_def)
  with Cons.IH [of "Handle_key k l w"] show ?case by simp
qed

lemma facade_ok_EnableDebugging:
  assumes "facade_ok w"
  shows "facade_ok (EnableDebugging good w)"
proof -
  from assms have range: "frustum w < length (frustums w)"
    by (simp add: facade_ok_def)
  let ?w = "EnableDebugging good w"
  have fields: "frustum ?w = frustum w" "destroyed ?w = destroyed w" "camera ?w = camera w"
    "cameras ?w = cameras w"
    "frustums ?w = (frustums w)[frustum w := (frustums w ! frustum w)\<lparr>clipping := True\<rparr>]"
    using range
    by (cases good; simp add: EnableDebugging_failure_eq EnableDebugging_success_eq)+
  have same: "camera_exists ?w x = camera_exists w x" for x
    by (rule camera_exists_cameras) (rule fields)
  from assms have "\<forall>i < length (frustums w). camera_exists w (wrapped (frustums w ! i))"
    by (simp add: facade_ok_def list_all_length)
  with range have "list_all (\<lambda>f. camera_exists w (wrapped f))
      ((frustums w)[frustum w := (frustums w ! frustum w)\<lparr>clipping := True\<rparr>])"
    by (simp add: list_all_length nth_list_update)
  with assms show ?thesis
    unfolding facade_ok_def same fields by simp
qed

lemma facade_ok_kept: "facade_ok w \<Longrightarrow> pointers w' = pointers w \<Longrightarrow> facade_ok w'"
  using facade_ok_pointers [of w' w] by simp

lemma facade_ok_perform:
  assumes "facade_ok w" and "call_ok w c"
  shows "facade_ok (perform c w)"
proof (cases c)
  case (CallSetScene s)
  from assms(1) show ?thesis
    unfolding CallSetScene perform.simps
    by (rule facade_ok_kept) (simp add: pointers_def SetScene_eq)
next
  case (CallSetCamera r)
  with assms show ?thesis
    by (cases r) (simp_all add: facade_ok_SetCamera_Camera facade_ok_SetCamera_IViewingVolume)
next
  case (CallAddDataDirectory dir)
  from assms(1) show ?thesis
    unfolding CallAddDataDirectory perform.simps
    by (rule facade_ok_kept) (simp add: pointers_def AddDataDirectory_def)
next
  case (CallEnableDebugging good)
  with assms show ?thesis by (simp add: facade_ok_EnableDebugging)
next
  case (CallSetSceneRoot r)
  from assms(1) show ?thesis
    unfolding CallSetSceneRoot perform.simps
    by (rule facade_ok_kept) (simp add: pointers_def SetSceneRoot_def)
next
  case FireRendererInitialize
  from assms(1) show ?thesis
    unfolding FireRendererInitialize perform.simps fire_renderer_initialize_def
    by (rule facade_ok_kept) (rule fold_Handle_rendering_pointers)
next
  case (FireKeyEvent k)
  from assms(1) show ?thesis
    unfolding FireKeyEvent perform.simps fire_key_event_def
    by (rule facade_ok_kept) (rule fold_Handle_key_pointers)
qed

lemma facade_ok_run: "facade_ok w \<Longrightarrow> calls_ok w cs \<Longrightarrow> facade_ok (run cs w)"
  unfolding run_def
proof (induction cs arbitrary: w)
  case Nil
  then show ?case by simp
next
  case (Cons c cs)
  from Cons.prems have "facade_ok (perform c w)" and "calls_ok (perform c w) cs"
    by (simp_all add: facade_ok_perform)
  then show ?case by (simp add: Cons.IH)
qed

lemma facade_ok_reachable: "calls_ok (SimpleSetup t host) cs \<Longrightarrow> facade_ok (run cs (SimpleSetup t host))"
  by (rule facade_ok_run) (rule facade_ok_SimpleSetup)


section \<open>The camera the Frustum of the facade wraps\<close>

text \<open>Only \<open>SetCamera(Camera&)\<close> changes which camera the Frustum the facade holds wraps,
  and it makes it the current camera. So that camera is always one that has been current:
  the camera of the state after some number of the calls made so far.\<close>

lemma pointers_frustum:
  "pointers w' = pointers w \<Longrightarrow>
   wrapped (frustums w' ! frustum w') = wrapped (frustums w ! frustum w)"
  by (simp add: pointers_def)

lemma EnableDebugging_wrapped:
  "wrapped (frustums (EnableDebugging good w) ! frustum (EnableDebugging good w)) =
   wrapped (frustums w ! frustum w)"
  by (simp add: EnableDebugging_def VisualizeClipping_def AddNode_def GetFrustumNode_def
      write_log_def Write_dot_def Let_def)

lemma perform_wrapped:
  assumes "\<And>c'. c \<noteq> CallSetCamera (ByCamera c')"
  shows "wrapped (frustums (perform c w) ! frustum (perform c w)) =
    wrapped (frustums w ! frustum w)"
proof (cases c)
  case (CallSetScene s)
  show ?thesis
    unfolding CallSetScene perform.simps
    by (rule pointers_frustum) (simp add: pointers_def SetScene_eq)
next
  case (CallSetCamera r)
  show ?thesis
  proof (cases r)
    case (ByCamera c')
    with CallSetCamera assms [of c'] show ?thesis by simp
  next
    case (ByViewingVolume v)
    with CallSetCamera show ?thesis by (simp add: SetCamera_IViewingVolume_eq)
  qed
next
  case (CallAddDataDirectory dir)
  show ?thesis
    unfolding CallAddDataDirectory perform.simps
    by (rule pointers_frustum) (simp add: pointers_def AddDataDirectory_def)
next
  case (CallEnableDebugging good)
  show ?thesis
    unfolding CallEnableDebugging perform.simps by (rule EnableDebugging_wrapped)
next
  case (CallSetSceneRoot r)
  show ?thesis
    unfolding CallSetSceneRoot perform.simps
    by (rule pointers_frustum) (simp add: pointers_def SetSceneRoot_def)
next
  case FireRendererInitialize
  show ?thesis
    unfolding FireRendererInitialize perform.simps fire_renderer_initialize_def
    by (rule pointers_frustum) (rule fold_Handle_rendering_pointers)
next
  case (FireKeyEvent k)
  show ?thesis
    unfolding FireKeyEvent perform.simps fire_key_event_def
    by (rule pointers_frustum) (rule fold_Handle_key_pointers)
qed

lemma run_snoc: "run (cs @ [c]) w = perform c (run cs w)"
  by (simp add: run_def)

lemma frustum_wraps_a_current_camera:
  assumes "wrapped (frustums w ! frustum w) = camera w"
  shows "\<exists>k \<le> length cs.
    wrapped (frustums (run cs w) ! frustum (run cs w)) = camera (run (take k cs) w)"
proof (induction cs rule: rev_induct)
  case Nil
  from assms show ?case by (simp add: run_def)
next
  case (snoc c cs)
  show ?case
  proof (cases "\<exists>c'. c = CallSetCamera (ByCamera c')")
    case True
    then obtain c' where c: "c = CallSetCamera (ByCamera c')" by blast
    have "wrapped (frustums (run (cs @ [c]) w) ! frustum (run (cs @ [c]) w)) =
        camera (run (take (length (cs @ [c])) (cs @ [c])) w)"
      unfolding take_all [OF order_refl] run_snoc c by (simp add: SetCamera_Camera_eq)
    then show ?thesis by blast
  next
    case False
    then have same: "wrapped (frustums (run (cs @ [c]) w) ! frustum (run (cs @ [c]) w)) =
        wrapped (frustums (run cs w) ! frustum (run cs w))"
      unfolding run_snoc by (intro perform_wrapped) blast
    from snoc.IH obtain k where k: "k \<le> length cs"
      and at: "wrapped (frustums (run cs w) ! frustum (run cs w)) = camera (run (take k cs) w)"
      by blast
    from k have "take k (cs @ [c]) = take k cs" by simp
    with same at have "wrapped (frustums (run (cs @ [c]) w) ! frustum (run (cs @ [c]) w)) =
        camera (run (take k (cs @ [c])) w)"
      by simp
    moreover from k have "k \<le> length (cs @ [c])" by simp
    ultimately show ?thesis by blast
  qed
qed

lemma frustum_wraps_an_earlier_camera:
  assumes "wrapped (frustums w ! frustum w) = camera w"
    and "wrapped (frustums (run cs w) ! frustum (run cs w)) \<noteq> camera (run cs w)"
  shows "\<exists>k < length cs.
    wrapped (frustums (run cs w) ! frustum (run cs w)) = camera (run (take k cs) w)"
proof -
  from frustum_wraps_a_current_camera [OF assms(1), of cs] obtain k where k: "k \<le> length cs"
    and at: "wrapped (frustums (run cs w) ! frustum (run cs w)) = camera (run (take k cs) w)"
    by blast
  from at assms(2) have "k \<noteq> length cs" by auto
  with k have "k < length cs" by simp
  with at show ?thesis by blast
qed

lemma SimpleSetup_frustum_wraps_camera:
  "wrapped (frustums (SimpleSetup t host) ! frustum (SimpleSetup t host)) =
   camera (SimpleSetup t host)"
  by (simp add: SimpleSetup_eq members_def)

text \<open>What \<open>SetCamera(IViewingVolume&)\<close> does to the Frustum, in any state with sound pointers.\<close>

lemma SetCamera_IViewingVolume_frustum:
  assumes "facade_ok w"
  shows "frustum (SetCamera_IViewingVolume v w) = frustum w \<and>
    frustums (SetCamera_IViewingVolume v w) = frustums w \<and>
    Volume (FrustumVolume (frustum w)) \<notin> set (destroyed (SetCamera_IViewingVolume v w)) \<and>
    wrapped (frustums (SetCamera_IViewingVolume v w) ! frustum (SetCamera_IViewingVolume v w)) \<noteq>
      GetCamera (SetCamera_IViewingVolume v w) \<and>
    destroyed (SetCamera_Camera c (SetCamera_IViewingVolume v w)) =
      destroyed w @ [Volume (FrustumVolume (frustum w))]"
proof -
  from assms have "camera_exists w (wrapped (frustums w ! frustum w))"
    by (rule facade_ok_wrapped_exists)
  then have "wrapped (frustums w ! frustum w) \<noteq> OwnCamera (length (cameras w))"
    by (cases "wrapped (frustums w ! frustum w)") simp_all
  moreover from assms have "Volume (FrustumVolume (frustum w)) \<notin> set (destroyed w)"
    by (simp add: facade_ok_def)
  ultimately show ?thesis
    by (simp add: SetCamera_IViewingVolume_eq SetCamera_Camera_eq GetCamera_def)
qed

section \<open>Scene replacement\<close>

text \<open>
  Claim C1. For every scene root \<open>s\<close>, \<open>SetScene(s)\<close> makes \<open>s\<close> the current scene
  (what \<open>GetScene\<close> returns) and the scene root of the renderer; every texture reachable
  from \<open>s\<close> is loaded when the call returns; one new ShaderLoader, bound to the texture
  loader and \<open>s\<close>, is attached at the end of the Initialize phase of the engine; nothing
  is destroyed, the previous scene root included, and no scene graph is changed.
\<close>

theorem SetScene_replaces_scene:
  "GetScene (SetScene s w) = s \<and>
   renderer_root (SetScene s w) = Some s \<and>
   (\<forall>t \<in> set (reachable_textures (nodes w s)). t \<in> loaded (SetScene s w)) \<and>
   shader_loaders (SetScene s w) = shader_loaders w @ [s] \<and>
   engine_initialize (SetScene s w) =
     engine_initialize w @ [ShaderLoader (length (shader_loaders w))] \<and>
   destroyed (SetScene s w) = destroyed w \<and>
   nodes (SetScene s w) = nodes w"
  by (simp add: SetScene_eq GetScene_def)

theorem SetScene_replaces_scene_witness:
  "GetScene (SetScene (CallerNode 0) example_world) = CallerNode 0 \<and>
   renderer_root (SetScene (CallerNode 0) example_world) = Some (CallerNode 0) \<and>
   1 \<in> loaded (SetScene (CallerNode 0) example_world) \<and>
   2 \<in> loaded (SetScene (CallerNode 0) example_world) \<and>
   3 \<in> loaded (SetScene (CallerNode 0) example_world) \<and>
   shader_loaders (SetScene (CallerNode 0) example_world) = [CallerNode 0] \<and>
   engine_initialize (SetScene (CallerNode 0) example_world) =
     [Frame, Renderer, Input, ShaderLoader 0] \<and>
   destroyed (SetScene (CallerNode 0) example_world) = []"
  using SetScene_replaces_scene [of "CallerNode 0" example_world]
  by (simp add: example_world_fields example_host_def)

text \<open>
  Claim C5. After \<open>N\<close> consecutive calls of \<open>SetScene\<close> on a new facade, the
  Initialize phase of the engine holds the three modules of the constructor followed by
  exactly \<open>N\<close> ShaderLoaders, the k-th bound to the scene of the k-th call; one more
  call keeps the listeners there are and adds one.
\<close>

theorem SetScene_accumulates_ShaderLoaders:
  "engine_initialize (fold SetScene ss (SimpleSetup t host)) =
     [Frame, Renderer, Input] @ map ShaderLoader [0 ..< length ss] \<and>
   length (filter is_ShaderLoader (engine_initialize (fold SetScene ss (SimpleSetup t host)))) =
     length ss \<and>
   shader_loaders (fold SetScene ss (SimpleSetup t host)) = ss \<and>
   engine_initialize (fold SetScene (ss @ [s]) (SimpleSetup t host)) =
     engine_initialize (fold SetScene ss (SimpleSetup t host)) @ [ShaderLoader (length ss)]"
proof -
  have init: "engine_initialize (SimpleSetup t host) = [Frame, Renderer, Input]"
    and none: "shader_loaders (SimpleSetup t host) = []"
    by (simp_all add: SimpleSetup_eq members_def)
  have a: "engine_initialize (fold SetScene ss (SimpleSetup t host)) =
      [Frame, Renderer, Input] @ map ShaderLoader [0 ..< length ss]" for ss
    by (simp add: fold_SetScene_engine_initialize init none)
  have b: "shader_loaders (fold SetScene ss (SimpleSetup t host)) = ss"
    by (simp add: fold_SetScene_shader_loaders none)
  have c: "length (filter is_ShaderLoader ([Frame, Renderer, Input] @ map ShaderLoader [0 ..< length ss])) =
      length ss"
    by (simp add: filter_is_ShaderLoader_map)
  have d: "engine_initialize (fold SetScene (ss @ [s]) (SimpleSetup t host)) =
      engine_initialize (fold SetScene ss (SimpleSetup t host)) @ [ShaderLoader (length ss)]"
    unfolding a by simp
  from a [of ss] b c d show ?thesis by simp
qed

section \<open>Camera replacement\<close>

text \<open>
  Claim C2, as the code has it. For every Camera \<open>c\<close>, \<open>SetCamera(c)\<close> destroys the
  Frustum the facade holds and nothing else, creates a new Frustum that wraps \<open>c\<close>,
  and binds the Viewport to the new Frustum; \<open>c\<close> is the current camera afterwards. The
  camera that was current before is not destroyed, and the facade no longer refers to it
  unless \<open>c\<close> is that very camera.
\<close>

theorem SetCamera_Camera_replaces_frustum:
  "destroyed (SetCamera_Camera c w) = destroyed w @ [Volume (FrustumVolume (frustum w))] \<and>
   frustum (SetCamera_Camera c w) = length (frustums w) \<and>
   frustums (SetCamera_Camera c w) = frustums w @ [\<lparr>wrapped = c, clipping = False\<rparr>] \<and>
   viewport_volume (SetCamera_Camera c w) = Some (FrustumVolume (frustum (SetCamera_Camera c w))) \<and>
   GetCamera (SetCamera_Camera c w) = c \<and>
   cameras (SetCamera_Camera c w) = cameras w \<and>
   (Volume (CameraVolume (GetCamera w)) \<in> set (destroyed (SetCamera_Camera c w))) =
     (Volume (CameraVolume (GetCamera w)) \<in> set (destroyed w)) \<and>
   (c \<noteq> GetCamera w \<longrightarrow> \<not> facade_refers (SetCamera_Camera c w) (GetCamera w))"
  by (simp add: SetCamera_Camera_eq GetCamera_def facade_refers_def)

theorem SetCamera_Camera_replaces_frustum_witness:
  "destroyed (SetCamera_Camera (CallerCamera 7) example_world) = [Volume (FrustumVolume 0)] \<and>
   frustum (SetCamera_Camera (CallerCamera 7) example_world) = 1 \<and>
   frustums (SetCamera_Camera (CallerCamera 7) example_world) =
     [\<lparr>wrapped = OwnCamera 0, clipping = False\<rparr>, \<lparr>wrapped = CallerCamera 7, clipping = False\<rparr>] \<and>
   viewport_volume (SetCamera_Camera (CallerCamera 7) example_world) = Some (FrustumVolume 1) \<and>
   CallerCamera 7 \<noteq> GetCamera example_world \<and>
   \<not> facade_refers (SetCamera_Camera (CallerCamera 7) example_world) (OwnCamera 0)"
  using SetCamera_Camera_replaces_frustum [of "CallerCamera 7" example_world]
  by (simp add: example_world_fields GetCamera_def)

text \<open>
  Claim C2 as stated fails when the camera passed in is the current one, as in
  \<open>setup.SetCamera(*setup.GetCamera())\<close>: the facade still refers to the camera that
  was current before the call.
\<close>

theorem SetCamera_Camera_same_camera_counterexample:
  "facade_refers (SetCamera_Camera (GetCamera example_world) example_world)
     (GetCamera example_world)"
  by (simp add: SetCamera_Camera_eq GetCamera_def facade_refers_def)

text \<open>
  Claim C3. For every viewing volume \<open>v\<close>, \<open>SetCamera(v)\<close> creates a new Camera that
  wraps \<open>v\<close>, makes it the current camera (what \<open>GetCamera\<close> returns) and binds the
  Viewport to that Camera itself. No Frustum is created or destroyed, the Frustum the
  facade holds stays, and the Viewport is bound to no Frustum afterwards.
\<close>

theorem SetCamera_IViewingVolume_binds_camera:
  "GetCamera (SetCamera_IViewingVolume v w) = OwnCamera (length (cameras w)) \<and>
   cameras (SetCamera_IViewingVolume v w) = cameras w @ [v] \<and>
   viewport_volume (SetCamera_IViewingVolume v w) =
     Some (CameraVolume (GetCamera (SetCamera_IViewingVolume v w))) \<and>
   frustums (SetCamera_IViewingVolume v w) = frustums w \<and>
   frustum (SetCamera_IViewingVolume v w) = frustum w \<and>
   destroyed (SetCamera_IViewingVolume v w) = destroyed w \<and>
   (\<forall>f. viewport_volume (SetCamera_IViewingVolume v w) \<noteq> Some (FrustumVolume f))"
  by (simp add: SetCamera_IViewingVolume_eq GetCamera_def)

text \<open>
  Claim C4. After any sequence of camera replacements on a new facade the Viewport is
  bound to what the last replacement installed: with no replacement, the Frustum of the
  constructor; after a replacement by camera \<open>c\<close>, the Frustum that call created, which
  wraps \<open>c\<close> and is the Frustum the facade holds; after a replacement by viewing volume
  \<open>v\<close>, the Camera that call created, which wraps \<open>v\<close> and is the current camera.
\<close>

theorem viewport_bound_to_last_replacement:
  "(rs = [] \<longrightarrow>
      viewport_volume (fold replace rs (SimpleSetup t host)) =
        Some (FrustumVolume (frustum (SimpleSetup t host)))) \<and>
   (\<forall>rs' c. rs = rs' @ [ByCamera c] \<longrightarrow>
      viewport_volume (fold replace rs (SimpleSetup t host)) =
        Some (FrustumVolume (length (frustums (fold replace rs' (SimpleSetup t host))))) \<and>
      frustum (fold replace rs (SimpleSetup t host)) =
        length (frustums (fold replace rs' (SimpleSetup t host))) \<and>
      frustums (fold replace rs (SimpleSetup t host)) =
        frustums (fold replace rs' (SimpleSetup t host)) @ [\<lparr>wrapped = c, clipping = False\<rparr>]) \<and>
   (\<forall>rs' v. rs = rs' @ [ByViewingVolume v] \<longrightarrow>
      viewport_volume (fold replace rs (SimpleSetup t host)) =
        Some (CameraVolume (OwnCamera (length (cameras (fold replace rs' (SimpleSetup t host)))))) \<and>
      GetCamera (fold replace rs (SimpleSetup t host)) =
        OwnCamera (length (cameras (fold replace rs' (SimpleSetup t host)))) \<and>
      cameras (fold replace rs (SimpleSetup t host)) =
        cameras (fold replace rs' (SimpleSetup t host)) @ [v])"
proof (intro conjI allI impI)
  assume "rs = []"
  then show "viewport_volume (fold replace rs (SimpleSetup t host)) =
      Some (FrustumVolume (frustum (SimpleSetup t host)))"
    by (simp add: SimpleSetup_eq members_def)
next
  fix rs' c
  assume rs: "rs = rs' @ [ByCamera c]"
  let ?before = "fold replace rs' (SimpleSetup t host)"
  from rs have step: "fold replace rs (SimpleSetup t host) = SetCamera_Camera c ?before"
    by simp
  show "viewport_volume (fold replace rs (SimpleSetup t host)) =
      Some (FrustumVolume (length (frustums ?before)))"
    unfolding step by (simp add: SetCamera_Camera_eq)
  show "frustum (fold replace rs (SimpleSetup t host)) = length (frustums ?before)"
    unfolding step by (simp add: SetCamera_Camera_eq)
  show "frustums (fold replace rs (SimpleSetup t host)) =
      frustums ?before @ [\<lparr>wrapped = c, clipping = False\<rparr>]"
    unfolding step by (simp add: SetCamera_Camera_eq)
next
  fix rs' v
  assume rs: "rs = rs' @ [ByViewingVolume v]"
  let ?before = "fold replace rs' (SimpleSetup t host)"
  from rs have step: "fold replace rs (SimpleSetup t host) = SetCamera_IViewingVolume v ?before"
    by simp
  show "viewport_volume (fold replace rs (SimpleSetup t host)) =
      Some (CameraVolume (OwnCamera (length (cameras ?before))))"
    unfolding step by (simp add: SetCamera_IViewingVolume_eq)
  show "GetCamera (fold replace rs (SimpleSetup t host)) = OwnCamera (length (cameras ?before))"
    unfolding step by (simp add: SetCamera_IViewingVolume_eq GetCamera_def)
  show "cameras (fold replace rs (SimpleSetup t host)) = cameras ?before @ [v]"
    unfolding step by (simp add: SetCamera_IViewingVolume_eq)
qed

theorem viewport_bound_to_last_replacement_witness:
  "viewport_volume (fold replace [] (SimpleSetup ''demo'' example_host)) =
     Some (FrustumVolume 0) \<and>
   viewport_volume (fold replace [ByViewingVolume (CallerVolume 4), ByCamera (CallerCamera 7)]
      (SimpleSetup ''demo'' example_host)) = Some (FrustumVolume 1) \<and>
   frustums (fold replace [ByViewingVolume (CallerVolume 4), ByCamera (CallerCamera 7)]
      (SimpleSetup ''demo'' example_host)) =
     [\<lparr>wrapped = OwnCamera 0, clipping = False\<rparr>, \<lparr>wrapped = CallerCamera 7, clipping = False\<rparr>] \<and>
   viewport_volume (fold replace [ByCamera (CallerCamera 7), ByViewingVolume (CallerVolume 4)]
      (SimpleSetup ''demo'' example_host)) = Some (CameraVolume (OwnCamera 1)) \<and>
   cameras (fold replace [ByCamera (CallerCamera 7), ByViewingVolume (CallerVolume 4)]
      (SimpleSetup ''demo'' example_host)) = [DefaultVolume, CallerVolume 4]"
proof -
  have fields: "frustum (SimpleSetup ''demo'' example_host) = 0"
    "frustums (SimpleSetup ''demo'' example_host) = [\<lparr>wrapped = OwnCamera 0, clipping = False\<rparr>]"
    "cameras (SimpleSetup ''demo'' example_host) = [DefaultVolume]"
    using example_world_fields by (simp_all add: example_world_def)
  have none: "viewport_volume (fold replace [] (SimpleSetup ''demo'' example_host)) =
      Some (FrustumVolume 0)"
    using viewport_bound_to_last_replacement [of "[]" "''demo''" example_host]
    by (simp add: fields)
  have by_camera:
    "viewport_volume (fold replace [ByViewingVolume (CallerVolume 4), ByCamera (CallerCamera 7)]
        (SimpleSetup ''demo'' example_host)) = Some (FrustumVolume 1) \<and>
     frustums (fold replace [ByViewingVolume (CallerVolume 4), ByCamera (CallerCamera 7)]
        (SimpleSetup ''demo'' example_host)) =
       [\<lparr>wrapped = OwnCamera 0, clipping = False\<rparr>, \<lparr>wrapped = CallerCamera 7, clipping = False\<rparr>]"
    using viewport_bound_to_last_replacement
      [of "[ByViewingVolume (CallerVolume 4), ByCamera (CallerCamera 7)]" "''demo''" example_host,
        THEN conjunct2, THEN conjunct1, rule_format,
        of "[ByViewingVolume (CallerVolume 4)]" "CallerCamera 7"]
    by (simp add: SetCamera_IViewingVolume_eq fields)
  have by_volume:
    "viewport_volume (fold replace [ByCamera (CallerCamera 7), ByViewingVolume (CallerVolume 4)]
        (SimpleSetup ''demo'' example_host)) = Some (CameraVolume (OwnCamera 1)) \<and>
     cameras (fold replace [ByCamera (CallerCamera 7), ByViewingVolume (CallerVolume 4)]
        (SimpleSetup ''demo'' example_host)) = [DefaultVolume, CallerVolume 4]"
    using viewport_bound_to_last_replacement
      [of "[ByCamera (CallerCamera 7), ByViewingVolume (CallerVolume 4)]" "''demo''" example_host,
        THEN conjunct2, THEN conjunct2, rule_format,
        of "[ByCamera (CallerCamera 7)]" "CallerVolume 4"]
    by (simp add: SetCamera_Camera_eq fields)
  from none by_camera by_volume show ?thesis by blast
qed

text \<open>
  Claim C10, as the code has it. In every state \<open>w\<close> the facade reaches by calls that
  pass cameras that exist, \<open>SetCamera(IViewingVolume&)\<close> leaves the Frustum the facade
  holds as it is: the same Frustum, not destroyed, wrapping the camera it wrapped before
  the call. That is the camera that was current before the call when the Frustum and the
  camera agreed then, as they do after construction and after \<open>SetCamera(Camera&)\<close>;
  otherwise it is an earlier camera, one that was current after fewer of the calls. The
  Frustum never wraps the new current camera, so the two disagree after the call, and a
  following \<open>SetCamera(Camera&)\<close> destroys that Frustum.
\<close>

theorem SetCamera_IViewingVolume_keeps_frustum:
  assumes "calls_ok (SimpleSetup t host) cs" and "w = run cs (SimpleSetup t host)"
  shows "frustum (SetCamera_IViewingVolume v w) = frustum w \<and>
    frustums (SetCamera_IViewingVolume v w) = frustums w \<and>
    Volume (FrustumVolume (frustum w)) \<notin> set (destroyed (SetCamera_IViewingVolume v w)) \<and>
    (wrapped (frustums w ! frustum w) = GetCamera w \<longrightarrow>
       wrapped (frustums (SetCamera_IViewingVolume v w) ! frustum (SetCamera_IViewingVolume v w)) =
         GetCamera w) \<and>
    (wrapped (frustums w ! frustum w) \<noteq> GetCamera w \<longrightarrow>
       (\<exists>k < length cs.
          wrapped (frustums (SetCamera_IViewingVolume v w) ! frustum (SetCamera_IViewingVolume v w)) =
            GetCamera (run (take k cs) (SimpleSetup t host)))) \<and>
    wrapped (frustums (SetCamera_IViewingVolume v w) ! frustum (SetCamera_IViewingVolume v w)) \<noteq>
      GetCamera (SetCamera_IViewingVolume v w) \<and>
    destroyed (SetCamera_Camera c (SetCamera_IViewingVolume v w)) =
      destroyed w @ [Volume (FrustumVolume (frustum w))]"
proof -
  from assms have ok: "facade_ok w"
    by (simp add: facade_ok_reachable)
  note kept = SetCamera_IViewingVolume_frustum [OF ok, of v c]
  from kept have same: "wrapped (frustums (SetCamera_IViewingVolume v w) !
      frustum (SetCamera_IViewingVolume v w)) = wrapped (frustums w ! frustum w)"
    by simp
  have earlier: "\<exists>k < length cs. wrapped (frustums w ! frustum w) =
      GetCamera (run (take k cs) (SimpleSetup t host))"
    if "wrapped (frustums w ! frustum w) \<noteq> GetCamera w"
    using frustum_wraps_an_earlier_camera
      [where w = "SimpleSetup t host" and cs = cs, OF SimpleSetup_frustum_wraps_camera] that
    unfolding assms(2) GetCamera_def by simp
  from kept same earlier show ?thesis by simp
qed

theorem SetCamera_IViewingVolume_keeps_frustum_witness:
  "calls_ok (SimpleSetup ''demo'' example_host) [] \<and>
   wrapped (frustums example_world ! frustum example_world) = GetCamera example_world \<and>
   wrapped (frustums (SetCamera_IViewingVolume (CallerVolume 4) example_world) !
      frustum (SetCamera_IViewingVolume (CallerVolume 4) example_world)) =
     GetCamera example_world \<and>
   calls_ok (SimpleSetup ''demo'' example_host) [CallSetCamera (ByViewingVolume (CallerVolume 4))] \<and>
   wrapped (frustums (run [CallSetCamera (ByViewingVolume (CallerVolume 4))] example_world) !
      frustum (run [CallSetCamera (ByViewingVolume (CallerVolume 4))] example_world)) \<noteq>
     GetCamera (run [CallSetCamera (ByViewingVolume (CallerVolume 4))] example_world) \<and>
   wrapped (frustums (SetCamera_IViewingVolume (CallerVolume 5)
        (run [CallSetCamera (ByViewingVolume (CallerVolume 4))] example_world)) !
      frustum (SetCamera_IViewingVolume (CallerVolume 5)
        (run [CallSetCamera (ByViewingVolume (CallerVolume 4))] example_world))) =
     GetCamera (run (take 0 [CallSetCamera (ByViewingVolume (CallerVolume 4))]) example_world) \<and>
   GetCamera (SetCamera_IViewingVolume (CallerVolume 5)
      (run [CallSetCamera (ByViewingVolume (CallerVolume 4))] example_world)) = OwnCamera 2 \<and>
   destroyed (SetCamera_Camera (CallerCamera 7) (SetCamera_IViewingVolume (CallerVolume 5)
      (run [CallSetCamera (ByViewingVolume (CallerVolume 4))] example_world))) =
     [Volume (FrustumVolume 0)]"
proof -
  let ?one = "[CallSetCamera (ByViewingVolume (CallerVolume 4))]"
  have none_ok: "calls_ok (SimpleSetup ''demo'' example_host) []"
    and one_ok: "calls_ok (SimpleSetup ''demo'' example_host) ?one"
    by simp_all
  have start: "example_world = run [] (SimpleSetup ''demo'' example_host)"
    and step: "run ?one example_world = run ?one (SimpleSetup ''demo'' example_host)"
    by (simp_all add: run_def example_world_def)
  have agree: "wrapped (frustums example_world ! frustum example_world) = GetCamera example_world"
    by (simp add: example_world_fields GetCamera_def)
  have differ: "wrapped (frustums (run ?one example_world) ! frustum (run ?one example_world)) \<noteq>
      GetCamera (run ?one example_world)"
    by (simp add: run_def SetCamera_IViewingVolume_eq example_world_fields GetCamera_def)
  have new: "GetCamera (SetCamera_IViewingVolume (CallerVolume 5) (run ?one example_world)) =
      OwnCamera 2"
    by (simp add: run_def SetCamera_IViewingVolume_eq example_world_fields GetCamera_def)
  have gone: "destroyed (run ?one example_world) = []" "frustum (run ?one example_world) = 0"
    by (simp_all add: run_def SetCamera_IViewingVolume_eq example_world_fields)
  note first = SetCamera_IViewingVolume_keeps_frustum
    [OF none_ok start, of "CallerVolume 4" "CallerCamera 7"]
  note second = SetCamera_IViewingVolume_keeps_frustum
    [OF one_ok step, of "CallerVolume 5" "CallerCamera 7"]
  from first agree have a: "wrapped (frustums (SetCamera_IViewingVolume (CallerVolume 4) example_world) !
      frustum (SetCamera_IViewingVolume (CallerVolume 4) example_world)) = GetCamera example_world"
    by blast
  from second differ have "\<exists>k < length ?one.
      wrapped (frustums (SetCamera_IViewingVolume (CallerVolume 5) (run ?one example_world)) !
        frustum (SetCamera_IViewingVolume (CallerVolume 5) (run ?one example_world))) =
      GetCamera (run (take k ?one) (SimpleSetup ''demo'' example_host))"
    by blast
  then have b: "wrapped (frustums (SetCamera_IViewingVolume (CallerVolume 5) (run ?one example_world)) !
        frustum (SetCamera_IViewingVolume (CallerVolume 5) (run ?one example_world))) =
      GetCamera (run (take 0 ?one) example_world)"
    by (simp add: example_world_def)
  from second have c: "destroyed (SetCamera_Camera (CallerCamera 7)
      (SetCamera_IViewingVolume (CallerVolume 5) (run ?one example_world))) =
      destroyed (run ?one example_world) @ [Volume (FrustumVolume (frustum (run ?one example_world)))]"
    by blast
  from none_ok one_ok agree differ a b c new show ?thesis
    unfolding gone by simp
qed

text \<open>
  Claim C10 as stated fails for a second replacement by viewing volume in a row: the
  Frustum still wraps the camera of the constructor, not the camera that was current
  before the second call.
\<close>

theorem SetCamera_IViewingVolume_twice_counterexample:
  "wrapped (frustums (SetCamera_IViewingVolume (CallerVolume 5)
        (SetCamera_IViewingVolume (CallerVolume 4) example_world)) !
      frustum (SetCamera_IViewingVolume (CallerVolume 5)
        (SetCamera_IViewingVolume (CallerVolume 4) example_world))) \<noteq>
   GetCamera (SetCamera_IViewingVolume (CallerVolume 4) example_world)"
  by (simp add: SetCamera_IViewingVolume_eq GetCamera_def example_world_fields)

section \<open>Construction\<close>

text \<open>
  Claim C6. The constructor registers the frame, the renderer and the input device, in
  this order and each once, on the Initialize, the Process and the Deinitialize phase of
  the engine, and nothing else.
\<close>

theorem SimpleSetup_registers_modules:
  "engine_initialize (SimpleSetup t host) = [Frame, Renderer, Input] \<and>
   engine_process (SimpleSetup t host) = [Frame, Renderer, Input] \<and>
   engine_deinitialize (SimpleSetup t host) = [Frame, Renderer, Input] \<and>
   distinct (engine_initialize (SimpleSetup t host)) \<and>
   distinct (engine_process (SimpleSetup t host)) \<and>
   distinct (engine_deinitialize (SimpleSetup t host))"
  by (simp add: SimpleSetup_eq)

section \<open>The listeners\<close>



text \<open>
  Claim C9. In every state the facade can be brought to, a key event with the escape
  key makes exactly one stop request to the engine, and a key event with any other key
  makes none and changes nothing.
\<close>

theorem QuitHandler_stops_on_escape:
  "engine_stops (fire_key_event KEY_ESCAPE (run cs (SimpleSetup t host))) =
     engine_stops (run cs (SimpleSetup t host)) + 1 \<and>
   fire_key_event (KEY_OTHER k) (run cs (SimpleSetup t host)) = run cs (SimpleSetup t host)"
  by (simp add: fire_key_event_def run_SimpleSetup_listeners QuitHandler_Handle_def Stop_def)

section \<open>Debugging\<close>

text \<open>
  Claim C7. When scene.dot cannot be opened, \<open>EnableDebugging\<close> writes one error line
  to the logger and returns; the clip planes of the Frustum are visualized and the node
  of the Frustum is added to the current scene all the same, and no file is written.
  When the file can be opened, the same happens to the Frustum and the scene, the graph
  of the scene is written, and two informational lines are logged instead, the second
  with the command that converts the file.
\<close>

theorem EnableDebugging_reports_file_failure:
  assumes "frustum w < length (frustums w)"
  shows "log_lines (EnableDebugging False w) =
      log_lines w @ [(Error, ''Can not open 'scene.dot' for output'')] \<and>
    clipping (frustums (EnableDebugging False w) ! frustum w) \<and>
    subNodes (nodes (EnableDebugging False w) (scene w)) =
      subNodes (nodes w (scene w)) @ [nodes w (GetFrustumNode (frustum w))] \<and>
    scene_dot (EnableDebugging False w) = scene_dot w \<and>
    log_lines (EnableDebugging True w) =
      log_lines w @
        [(Info, ''Saved physics graph to 'scene.dot'' @ [CHR 0x27]),
         (Info, ''To create a SVG image run: dot -Tsvg scene.dot > scene.svg'')] \<and>
    clipping (frustums (EnableDebugging True w) ! frustum w) \<and>
    subNodes (nodes (EnableDebugging True w) (scene w)) =
      subNodes (nodes w (scene w)) @ [nodes w (GetFrustumNode (frustum w))] \<and>
    scene_dot (EnableDebugging True w) = Some (nodes (EnableDebugging True w) (scene w))"
proof -
  have sub: "subNodes (add_sub n m) = subNodes n @ [m]" for n m
    by (cases n) simp
  from assms show ?thesis
    by (simp add: EnableDebugging_failure_eq EnableDebugging_success_eq GetFrustumNode_def sub)
qed

theorem EnableDebugging_reports_file_failure_witness:
  "frustum example_world < length (frustums example_world) \<and>
   log_lines (EnableDebugging False example_world) =
     [(Error, ''Can not open 'scene.dot' for output'')] \<and>
   clipping (frustums (EnableDebugging False example_world) ! 0) \<and>
   subNodes (nodes (EnableDebugging False example_world) DefaultScene) =
     [SceneNode DefaultLight [] [], SceneNode (FrustumNode 0) [] []] \<and>
   scene_dot (EnableDebugging False example_world) = None \<and>
   log_lines (EnableDebugging True example_world) =
     [(Info, ''Saved physics graph to 'scene.dot'' @ [CHR 0x27]),
      (Info, ''To create a SVG image run: dot -Tsvg scene.dot > scene.svg'')]"
proof -
  have ok: "frustum example_world < length (frustums example_world)"
    by (simp add: example_world_fields)
  from EnableDebugging_reports_file_failure [OF ok] ok show ?thesis
    by (simp add: example_world_fields GetFrustumNode_def)
qed


end
